theory Spec2Isabelle
  imports Complex_Main
begin

section \<open>Floating-point values of the notebook\<close>

text \<open>
  The notebook computes with NumPy \<open>float64\<close> values.  A value is modelled as a real
  number or one of the three special values of IEEE arithmetic.  Rounding, overflow of
  finite results and the sign of zero are not modelled: a finite operation returns the
  exact real result, and a zero divisor is the positive zero.  NumPy does not raise on a
  division by zero or on an invalid operation: it returns an infinity or \<open>nan\<close>
  (with a warning), which is what the operations below do.
\<close>

datatype npfloat = Fin real | PInf | NInf | NaN

instantiation npfloat :: "{zero, one, plus, uminus, minus, times, inverse}"
begin

definition zero_npfloat :: npfloat where
  "zero_npfloat = Fin 0"

definition one_npfloat :: npfloat where
  "one_npfloat = Fin 1"

fun plus_npfloat :: "npfloat \<Rightarrow> npfloat \<Rightarrow> npfloat" where
  "plus_npfloat NaN y = NaN"
| "plus_npfloat x NaN = NaN"
| "plus_npfloat (Fin a) (Fin b) = Fin (a + b)"
| "plus_npfloat PInf NInf = NaN"
| "plus_npfloat NInf PInf = NaN"
| "plus_npfloat PInf y = PInf"
| "plus_npfloat NInf y = NInf"
| "plus_npfloat (Fin a) y = y"

fun uminus_npfloat :: "npfloat \<Rightarrow> npfloat" where
  "uminus_npfloat (Fin a) = Fin (- a)"
| "uminus_npfloat PInf = NInf"
| "uminus_npfloat NInf = PInf"
| "uminus_npfloat NaN = NaN"

definition minus_npfloat :: "npfloat \<Rightarrow> npfloat \<Rightarrow> npfloat" where
  "minus_npfloat x y = x + (- y)"

fun times_npfloat :: "npfloat \<Rightarrow> npfloat \<Rightarrow> npfloat" where
  "times_npfloat NaN y = NaN"
| "times_npfloat x NaN = NaN"
| "times_npfloat (Fin a) (Fin b) = Fin (a * b)"
| "times_npfloat (Fin a) PInf = (if a = 0 then NaN else if 0 < a then PInf else NInf)"
| "times_npfloat (Fin a) NInf = (if a = 0 then NaN else if 0 < a then NInf else PInf)"
| "times_npfloat PInf (Fin b) = (if b = 0 then NaN else if 0 < b then PInf else NInf)"
| "times_npfloat NInf (Fin b) = (if b = 0 then NaN else if 0 < b then NInf else PInf)"
| "times_npfloat PInf PInf = PInf"
| "times_npfloat PInf NInf = NInf"
| "times_npfloat NInf PInf = NInf"
| "times_npfloat NInf NInf = PInf"

fun divide_npfloat :: "npfloat \<Rightarrow> npfloat \<Rightarrow> npfloat" where
  "divide_npfloat NaN y = NaN"
| "divide_npfloat x NaN = NaN"
| "divide_npfloat (Fin a) (Fin b) =
     (if b \<noteq> 0 then Fin (a / b)
      else if a = 0 then NaN else if 0 < a then PInf else NInf)"
| "divide_npfloat (Fin a) y = Fin 0"
| "divide_npfloat PInf (Fin b) = (if 0 \<le> b then PInf else NInf)"
| "divide_npfloat NInf (Fin b) = (if 0 \<le> b then NInf else PInf)"
| "divide_npfloat x y = NaN"

fun inverse_npfloat :: "npfloat \<Rightarrow> npfloat" where
  "inverse_npfloat (Fin b) = (if b \<noteq> 0 then Fin (1 / b) else PInf)"
| "inverse_npfloat PInf = Fin 0"
| "inverse_npfloat NInf = Fin 0"
| "inverse_npfloat NaN = NaN"

instance ..

end

lemma npfloat_add_assoc: "(x + y) + z = x + (y + (z :: npfloat))"
  by (cases x; cases y; cases z) simp_all

lemma npfloat_add_commute: "x + y = y + (x :: npfloat)"
  by (cases x; cases y) simp_all

lemma npfloat_add_zero: "Fin 0 + x = x"
  by (cases x) simp_all

instance npfloat :: comm_monoid_add
  by standard
    (rule npfloat_add_assoc, rule npfloat_add_commute,
     simp only: zero_npfloat_def npfloat_add_zero)

instance npfloat :: numeral ..

text \<open>\<open>np.log\<close>, \<open>np.sqrt\<close> and \<open>np.exp\<close> on a scalar.\<close>

fun np_log :: "npfloat \<Rightarrow> npfloat" where
  "np_log (Fin a) = (if 0 < a then Fin (ln a) else if a = 0 then NInf else NaN)"
| "np_log PInf = PInf"
| "np_log NInf = NaN"
| "np_log NaN = NaN"

fun np_sqrt :: "npfloat \<Rightarrow> npfloat" where
  "np_sqrt (Fin a) = (if 0 \<le> a then Fin (sqrt a) else NaN)"
| "np_sqrt PInf = PInf"
| "np_sqrt NInf = NaN"
| "np_sqrt NaN = NaN"

fun np_exp :: "npfloat \<Rightarrow> npfloat" where
  "np_exp (Fin a) = Fin (exp a)"
| "np_exp PInf = PInf"
| "np_exp NInf = Fin 0"
| "np_exp NaN = NaN"

text \<open>Comparison of two floats: false as soon as one side is \<open>nan\<close>.\<close>

fun np_less :: "npfloat \<Rightarrow> npfloat \<Rightarrow> bool" where
  "np_less NaN y = False"
| "np_less x NaN = False"
| "np_less (Fin a) (Fin b) = (a < b)"
| "np_less x PInf = (x \<noteq> PInf)"
| "np_less NInf y = (y \<noteq> NInf)"
| "np_less x y = False"

text \<open>\<open>ndarray.round()\<close> rounds to the nearest integer, a tie to the even one.\<close>

definition round_half_even :: "real \<Rightarrow> int" where
  "round_half_even x =
     (let f = \<lfloor>x\<rfloor>; d = x - of_int f
      in if d < 1 / 2 then f else if 1 / 2 < d then f + 1
         else if even f then f else f + 1)"

fun np_round :: "npfloat \<Rightarrow> npfloat" where
  "np_round (Fin a) = Fin (of_int (round_half_even a))"
| "np_round x = x"

section \<open>The Black-Scholes call pricer\<close>

text \<open>
  \<open>stats.norm.cdf\<close> is SciPy's standard normal distribution function.  It is a
  library function, modelled by the function it computes, given by its power series at 0:
  \<open>1/2 + (\<Sum>k. (-1/2)^k x^(2k+1) / (k! (2k+1))) / sqrt (2 pi)\<close>.
  At the special values SciPy returns 1 at \<open>+inf\<close>, 0 at \<open>-inf\<close> and
  \<open>nan\<close> at \<open>nan\<close>.
\<close>

definition norm_cdf_coeff :: "nat \<Rightarrow> real" where
  "norm_cdf_coeff n =
     (if even n then 0
      else (- 1 / 2) ^ ((n - 1) div 2) / (fact ((n - 1) div 2) * real n))"

definition norm_cdf :: "real \<Rightarrow> real" where
  "norm_cdf x = 1 / 2 + (\<Sum>n. norm_cdf_coeff n * x ^ n) / sqrt (2 * pi)"

fun N :: "npfloat \<Rightarrow> npfloat" where
  "N (Fin a) = Fin (norm_cdf a)"
| "N PInf = Fin 1"
| "N NInf = Fin 0"
| "N NaN = NaN"

text \<open>
  \<open>bscall\<close> of presentation.ipynb.  Its arguments are \<open>float64\<close> values, as in
  the option grid, so that no operation raises.  The parameter \<open>div\<close> of the source
  is written \<open>dv\<close>, and the square \<open>vol**2\<close> is the product \<open>vol * vol\<close>.
\<close>

definition bscall ::
  "npfloat \<Rightarrow> npfloat \<Rightarrow> npfloat \<Rightarrow> npfloat \<Rightarrow> npfloat \<Rightarrow> npfloat \<Rightarrow> npfloat \<times> npfloat" where
  "bscall price strike rfr vol dv T =
     (let d1 = (np_log (price / strike) + (rfr - dv + vol * vol / Fin 2) * T)
                 / (vol * np_sqrt T);
          d2 = d1 - vol * np_sqrt T;
          call = price * np_exp (- dv * T) * N d1 - strike * np_exp (- rfr * T) * N d2;
          delta = N d1
      in (call, delta))"

text \<open>The earlier \<open>bscall\<close> of the second notebook returns the call price only.\<close>

definition bscall_call_only ::
  "npfloat \<Rightarrow> npfloat \<Rightarrow> npfloat \<Rightarrow> npfloat \<Rightarrow> npfloat \<Rightarrow> npfloat \<Rightarrow> npfloat" where
  "bscall_call_only price strike rfr vol dv T =
     (let d1 = (np_log (price / strike) + (rfr - dv + vol * vol / Fin 2) * T)
                 / (vol * np_sqrt T);
          d2 = d1 - vol * np_sqrt T;
          call = price * np_exp (- dv * T) * N d1 - strike * np_exp (- rfr * T) * N d2
      in call)"

section \<open>Shapes of arrays\<close>

datatype py_error = IndexError | ValueError

text \<open>
  An array is a list of rows.  An index beyond a dimension raises \<open>IndexError\<close>; the
  loops below read the indices below fixed bounds, so a function first checks that its
  arguments cover them.
\<close>

definition covers1 :: "nat \<Rightarrow> 'a list \<Rightarrow> bool" where
  "covers1 n xs = (n \<le> length xs)"

definition covers2 :: "nat \<Rightarrow> nat \<Rightarrow> 'a list list \<Rightarrow> bool" where
  "covers2 m n xss = (m \<le> length xss \<and> list_all (covers1 n) (take m xss))"

definition covers3 :: "nat \<Rightarrow> nat \<Rightarrow> nat \<Rightarrow> 'a list list list \<Rightarrow> bool" where
  "covers3 l m n xsss = (l \<le> length xsss \<and> list_all (covers2 m n) (take l xsss))"

section \<open>The hedge simulator\<close>

text \<open>The array \<open>d_excess_return\<close> that \<open>excess_return\<close> fills.\<close>

definition d_excess_return ::
  "npfloat list list list \<Rightarrow> npfloat list list list \<Rightarrow> npfloat list list \<Rightarrow> npfloat
     \<Rightarrow> npfloat list list list" where
  "d_excess_return option_prices call_deltas assets rfr =
     map (\<lambda>i. map (\<lambda>j. Fin 0 # map (\<lambda>k.
       (let ct = option_prices ! i ! j ! k;
            ct1 = option_prices ! i ! j ! (k - 1);
            h = call_deltas ! i ! j ! (k - 1);
            pt = assets ! j ! k;
            pt1 = assets ! j ! (k - 1);
            dr = rfr / Fin 260
        in (ct - ct1) - h * (pt - pt1) - dr * (ct1 - h * pt1))) [1..<25]) [0..<250]) [0..<4]"

definition np_sum :: "npfloat list \<Rightarrow> npfloat" where
  "np_sum xs = sum_list xs"

definition excess_return ::
  "npfloat list list list \<Rightarrow> npfloat list list list \<Rightarrow> npfloat list list \<Rightarrow> npfloat
     \<Rightarrow> py_error + npfloat list list" where
  "excess_return option_prices call_deltas assets rfr =
     (if covers3 4 250 25 option_prices \<and> covers3 4 250 25 call_deltas
         \<and> covers2 250 25 assets
      then (let d = d_excess_return option_prices call_deltas assets rfr
            in Inr (map (\<lambda>i. map (\<lambda>j. np_sum (d ! i ! j)) [0..<250]) [0..<4]))
      else Inl IndexError)"

section \<open>The option grid\<close>

text \<open>The globals \<open>rfr\<close>, \<open>div\<close>, \<open>vol\<close>, \<open>strikes\<close> and \<open>volatilities\<close> of the notebook.\<close>

definition g_rfr :: npfloat where
  "g_rfr = Fin (5 / 100)"

definition g_div :: npfloat where
  "g_div = Fin 0"

definition g_vol :: npfloat where
  "g_vol = Fin (15 / 100)"

definition strikes :: "npfloat list" where
  "strikes = [Fin 97, Fin 100, Fin 103, Fin 105]"

definition volatilities :: "npfloat list" where
  "volatilities = [Fin (1 / 10), Fin (13 / 100), Fin (15 / 100), Fin (17 / 100), Fin (2 / 10)]"

text \<open>
  The body of the four nested loops that fill \<open>option_prices[v][k][i][j]\<close> and
  \<open>call_deltas[v][k][i][j]\<close>: \<open>T\<close> is the integer \<open>25 - j\<close>, and the pricer
  receives the quotient \<open>T / 260\<close>.
\<close>

definition grid_cell :: "npfloat list list \<Rightarrow> nat \<Rightarrow> nat \<Rightarrow> nat \<Rightarrow> nat \<Rightarrow> npfloat \<times> npfloat" where
  "grid_cell assets v k i j =
     (let T = 25 - int j;
          price = assets ! i ! j
      in bscall price (strikes ! k) g_rfr (volatilities ! v) g_div
           (Fin (real_of_int T) / Fin 260))"

definition option_grid ::
  "npfloat list list
     \<Rightarrow> py_error + (npfloat list list list list \<times> npfloat list list list list)" where
  "option_grid assets =
     (if covers2 250 25 assets
      then Inr
        (map (\<lambda>v. map (\<lambda>k. map (\<lambda>i. map (\<lambda>j.
            fst (grid_cell assets v k i j)) [0..<25]) [0..<250]) [0..<4]) [0..<5],
         map (\<lambda>v. map (\<lambda>k. map (\<lambda>i. map (\<lambda>j.
            snd (grid_cell assets v k i j)) [0..<25]) [0..<250]) [0..<4]) [0..<5])
      else Inl IndexError)"

text \<open>
  The grid of the second notebook: one volatility (\<open>vol\<close>), the strikes taken from the
  list itself and stored at their position \<open>strikes.index(k)\<close>, the call price only.
\<close>

definition option_prices_single :: "npfloat list list \<Rightarrow> py_error + npfloat list list list" where
  "option_prices_single assets =
     (if covers2 250 25 assets
      then Inr (map (\<lambda>k. map (\<lambda>i. map (\<lambda>j.
             (let T = 25 - int j;
                  price = assets ! i ! j
              in bscall_call_only price k g_rfr g_vol g_div (Fin (real_of_int T) / Fin 260)))
             [0..<25]) [0..<250]) strikes)
      else Inl IndexError)"

section \<open>Lot rounding\<close>

text \<open>\<open>r_deltas = K[i] * (call_deltas / K[i]).round()\<close>, element by element.\<close>

definition lot_round :: "npfloat \<Rightarrow> npfloat \<Rightarrow> npfloat" where
  "lot_round K d = K * np_round (d / K)"

definition r_deltas :: "npfloat \<Rightarrow> npfloat list list list list \<Rightarrow> npfloat list list list list" where
  "r_deltas K call_deltas = map (map (map (map (lot_round K)))) call_deltas"

text \<open>
  One pass of the second loop of the hedging cell:
  \<open>excess_return(option_prices[2], r_deltas[2], assets, rfr)\<close>.
\<close>

definition lot_excess_return ::
  "npfloat \<Rightarrow> npfloat list list list list \<Rightarrow> npfloat list list list list \<Rightarrow> npfloat list list
     \<Rightarrow> py_error + npfloat list list" where
  "lot_excess_return K option_prices call_deltas assets =
     (if covers1 3 option_prices \<and> covers1 3 call_deltas
      then excess_return (option_prices ! 2) (r_deltas K call_deltas ! 2) assets g_rfr
      else Inl IndexError)"

section \<open>Aggregation\<close>

text \<open>
  \<open>np.mean\<close> divides the sum by the number of elements, and \<open>np.std\<close> is the square
  root of the mean of the squared deviations from the mean.
\<close>

definition np_mean :: "npfloat list \<Rightarrow> npfloat" where
  "np_mean xs = np_sum xs / Fin (real (length xs))"

definition np_std :: "npfloat list \<Rightarrow> npfloat" where
  "np_std xs =
     (let arrmean = np_mean xs;
          x = map (\<lambda>a. a - arrmean) xs
      in np_sqrt (np_sum (map (\<lambda>a. a * a) x) / Fin (real (length xs))))"

section \<open>The in-the-money summary\<close>

definition inTheMoney :: "npfloat list \<Rightarrow> (npfloat \<times> npfloat) list list" where
  "inTheMoney final_prices =
     map (\<lambda>i. map (\<lambda>p.
       if np_less (strikes ! i) (final_prices ! p)
       then (Fin 1, final_prices ! p - strikes ! i)
       else (Fin 0, Fin 0)) [0..<250]) [0..<4]"

definition avg_ITM :: "npfloat list \<Rightarrow> npfloat list" where
  "avg_ITM final_prices =
     map (\<lambda>i. np_mean (map (\<lambda>c. snd c * fst c) (inTheMoney final_prices ! i))) [0..<4]"

definition stdev_ITM :: "npfloat list \<Rightarrow> npfloat list" where
  "stdev_ITM final_prices =
     map (\<lambda>i. np_std (map (\<lambda>c. fst c * snd c) (inTheMoney final_prices ! i))) [0..<4]"

definition num_ITM :: "npfloat list \<Rightarrow> npfloat list" where
  "num_ITM final_prices =
     map (\<lambda>i. np_sum (map fst (inTheMoney final_prices ! i))) [0..<4]"

text \<open>The three arrays, or \<open>IndexError\<close> when \<open>final_prices\<close> has fewer than 250 entries.\<close>

definition itm_summary :: "npfloat list \<Rightarrow> py_error + (npfloat list \<times> npfloat list \<times> npfloat list)" where
  "itm_summary final_prices =
     (if covers1 250 final_prices
      then Inr (avg_ITM final_prices, stdev_ITM final_prices, num_ITM final_prices)
      else Inl IndexError)"

section \<open>The path generator\<close>

text \<open>
  The generator works on Python floats with \<open>math.exp\<close>, \<open>math.log\<close> and
  \<open>math.sqrt\<close>; \<open>math.log\<close> raises \<open>ValueError\<close> outside its domain.  The
  prices stay finite reals here: the overflow and the underflow of \<open>math.exp\<close> are
  not modelled.
\<close>

definition g_ar :: real where
  "g_ar = 15 / 100"

definition gbm_R :: real where
  "gbm_R = ln (1 + g_ar) / 260"

definition gbm_v :: real where
  "gbm_v = g_ar / sqrt 260"

definition math_log :: "real \<Rightarrow> py_error + real" where
  "math_log x = (if 0 < x then Inr (ln x) else Inl ValueError)"

text \<open>\<open>np.empty\<close> allocates without initialising: \<open>junk\<close> is what the cells hold.\<close>

definition np_empty :: "(nat \<Rightarrow> real) \<Rightarrow> nat \<Rightarrow> real list" where
  "np_empty junk n = map junk [0..<n]"

text \<open>The variable \<open>dr\<close> holds an array first and a scalar after the first assignment.\<close>

datatype np_value = Arr "real list" | Scalar real

text \<open>
  \<open>day_loop z n t (price, dr)\<close> runs \<open>n\<close> passes of the inner loop from day \<open>t\<close>;
  \<open>z t\<close> is the draw of \<open>np.random.normal(0,1)\<close> on day \<open>t\<close>.
\<close>

fun day_loop ::
  "(nat \<Rightarrow> real) \<Rightarrow> nat \<Rightarrow> nat \<Rightarrow> real list \<times> np_value \<Rightarrow> py_error + (real list \<times> np_value)" where
  "day_loop z 0 t s = Inr s"
| "day_loop z (Suc n) t (price, dr) =
     (let price' = price[t := price ! (t - 1) * exp (gbm_R + gbm_v * z t)]
      in case math_log (price' ! t / price' ! (t - 1)) of
           Inl e \<Rightarrow> Inl e
         | Inr l \<Rightarrow> day_loop z n (Suc t) (price', Scalar l))"

definition gen_path :: "(nat \<Rightarrow> real) \<Rightarrow> (nat \<Rightarrow> real) \<Rightarrow> py_error + (real list \<times> np_value)" where
  "gen_path z junk =
     (let price = (np_empty junk 25)[0 := 100];
          dr = (np_empty junk 25)[0 := 0]
      in day_loop z 24 1 (price, Arr dr))"

text \<open>
  Storing into a row of 25 cells: a scalar is broadcast to every cell, an array must
  have 25 entries.
\<close>

fun store_row :: "np_value \<Rightarrow> py_error + npfloat list" where
  "store_row (Scalar x) = Inr (replicate 25 (Fin x))"
| "store_row (Arr xs) = (if length xs = 25 then Inr (map Fin xs) else Inl ValueError)"

text \<open>The first exception ends the run.\<close>

fun sequence_rows :: "(py_error + 'a) list \<Rightarrow> py_error + 'a list" where
  "sequence_rows [] = Inr []"
| "sequence_rows (Inl e # rs) = Inl e"
| "sequence_rows (Inr a # rs) =
     (case sequence_rows rs of Inl e \<Rightarrow> Inl e | Inr as \<Rightarrow> Inr (a # as))"

text \<open>
  The outer loop over the 250 assets.  The draws come from one stream \<open>z\<close>, 24 for each
  asset in turn, so that day \<open>t\<close> of asset \<open>i\<close> uses draw number \<open>24 * i + (t - 1)\<close>.
  The result is the pair of arrays \<open>assets\<close> and \<open>daily_returns\<close>.
\<close>

definition asset_rows :: "(nat \<Rightarrow> real) \<Rightarrow> (nat \<Rightarrow> real) \<Rightarrow> nat \<Rightarrow> py_error + (npfloat list \<times> npfloat list)" where
  "asset_rows z junk i =
     (case gen_path (\<lambda>t. z (24 * i + (t - 1))) junk of
        Inl e \<Rightarrow> Inl e
      | Inr (price, dr) \<Rightarrow>
          (case store_row (Arr price) of
             Inl e \<Rightarrow> Inl e
           | Inr prow \<Rightarrow>
               (case store_row dr of
                  Inl e \<Rightarrow> Inl e
                | Inr drow \<Rightarrow> Inr (prow, drow))))"

definition simulate ::
  "(nat \<Rightarrow> real) \<Rightarrow> (nat \<Rightarrow> real) \<Rightarrow> py_error + (npfloat list list \<times> npfloat list list)" where
  "simulate z junk =
     (case sequence_rows (map (asset_rows z junk) [0..<250]) of
        Inl e \<Rightarrow> Inl e
      | Inr rows \<Rightarrow> Inr (map fst rows, map snd rows))"

text \<open>The realised volatility computed from \<open>daily_returns\<close>.\<close>

definition vol :: "npfloat list list \<Rightarrow> npfloat list" where
  "vol daily_returns = map (\<lambda>i. np_std (daily_returns ! i)) [0..<250]"



text \<open>
  The spec's reading of the reported mean, for comparison with \<open>avg_ITM\<close>: the payoff
  averaged over the in-the-money paths only.
\<close>

definition itm_mean_given_itm_spec :: "real list \<Rightarrow> real \<Rightarrow> real" where
  "itm_mean_given_itm_spec final_prices strike =
     sum_list (map (\<lambda>x. x - strike) (filter (\<lambda>x. strike < x) final_prices))
       / real (length (filter (\<lambda>x. strike < x) final_prices))"

text \<open>The real number a finite float stands for (0 for the special values).\<close>

fun fin_value :: "npfloat \<Rightarrow> real" where
  "fin_value (Fin a) = a"
| "fin_value x = 0"

section \<open>Properties\<close>

lemma Fin_minus: "Fin a - Fin b = Fin (a - b)"
  by (simp add: minus_npfloat_def)

subsection \<open>Shapes\<close>

lemma covers1_replicate: "n \<le> m \<Longrightarrow> covers1 n (replicate m x)"
  by (simp add: covers1_def)

lemma covers2_replicate: "m \<le> k \<Longrightarrow> covers1 n xs \<Longrightarrow> covers2 m n (replicate k xs)"
  by (simp add: covers2_def list_all_length)

lemma covers3_replicate: "l \<le> k \<Longrightarrow> covers2 m n xss \<Longrightarrow> covers3 l m n (replicate k xss)"
  by (simp add: covers3_def list_all_length)

subsection \<open>The excess-return series\<close>

lemma d_excess_return_row:
  assumes "i < 4" "j < 250"
  shows "d_excess_return option_prices call_deltas assets rfr ! i ! j =
     Fin 0 # map (\<lambda>k. (option_prices ! i ! j ! k - option_prices ! i ! j ! (k - 1))
        - call_deltas ! i ! j ! (k - 1) * (assets ! j ! k - assets ! j ! (k - 1))
        - rfr / Fin 260 * (option_prices ! i ! j ! (k - 1)
             - call_deltas ! i ! j ! (k - 1) * assets ! j ! (k - 1))) [1..<25]"
  using assms by (simp add: d_excess_return_def Let_def)

text \<open>
  Claim C1.  For arrays of the shapes the notebook uses (4 strikes, 250 assets, 25 days),
  \<open>excess_return\<close> returns, and for every strike \<open>i\<close> and asset \<open>j\<close> the daily series
  has 25 entries, starts with 0, has on each day \<open>t\<close> from 1 to 24 the value
  \<open>(C[t] - C[t-1]) - h[t-1] * (P[t] - P[t-1]) - r * (C[t-1] - h[t-1] * P[t-1])\<close>
  where \<open>r\<close> is the daily rate \<open>rfr / 260\<close> that the function computes from its argument,
  and the returned aggregate of the path is the sum of the 25 daily values.
\<close>

theorem excess_return_series:
  assumes "covers3 4 250 25 option_prices" "covers3 4 250 25 call_deltas"
    "covers2 250 25 assets" "i < 4" "j < 250"
  shows "\<exists>e_r. excess_return option_prices call_deltas assets rfr = Inr e_r
    \<and> length (d_excess_return option_prices call_deltas assets rfr ! i ! j) = 25
    \<and> d_excess_return option_prices call_deltas assets rfr ! i ! j ! 0 = 0
    \<and> (\<forall>t. 1 \<le> t \<and> t < 25 \<longrightarrow>
          d_excess_return option_prices call_deltas assets rfr ! i ! j ! t =
            (option_prices ! i ! j ! t - option_prices ! i ! j ! (t - 1))
            - call_deltas ! i ! j ! (t - 1) * (assets ! j ! t - assets ! j ! (t - 1))
            - rfr / Fin 260 * (option_prices ! i ! j ! (t - 1)
                 - call_deltas ! i ! j ! (t - 1) * assets ! j ! (t - 1)))
    \<and> e_r ! i ! j = (\<Sum>t<25. d_excess_return option_prices call_deltas assets rfr ! i ! j ! t)"
proof -
  let ?d = "d_excess_return option_prices call_deltas assets rfr ! i ! j"
  have row: "?d = Fin 0 # map (\<lambda>k. (option_prices ! i ! j ! k - option_prices ! i ! j ! (k - 1))
        - call_deltas ! i ! j ! (k - 1) * (assets ! j ! k - assets ! j ! (k - 1))
        - rfr / Fin 260 * (option_prices ! i ! j ! (k - 1)
             - call_deltas ! i ! j ! (k - 1) * assets ! j ! (k - 1))) [1..<25]"
    using assms(4,5) by (rule d_excess_return_row)
  have len: "length ?d = 25" by (simp add: row)
  have zero: "?d ! 0 = 0" by (simp add: row zero_npfloat_def)
  have step: "\<forall>t. 1 \<le> t \<and> t < 25 \<longrightarrow> ?d ! t =
            (option_prices ! i ! j ! t - option_prices ! i ! j ! (t - 1))
            - call_deltas ! i ! j ! (t - 1) * (assets ! j ! t - assets ! j ! (t - 1))
            - rfr / Fin 260 * (option_prices ! i ! j ! (t - 1)
                 - call_deltas ! i ! j ! (t - 1) * assets ! j ! (t - 1))"
  proof (intro allI impI)
    fix t :: nat assume t: "1 \<le> t \<and> t < 25"
    then obtain s where s: "t = Suc s" "s < 24" by (cases t) auto
    show "?d ! t =
            (option_prices ! i ! j ! t - option_prices ! i ! j ! (t - 1))
            - call_deltas ! i ! j ! (t - 1) * (assets ! j ! t - assets ! j ! (t - 1))
            - rfr / Fin 260 * (option_prices ! i ! j ! (t - 1)
                 - call_deltas ! i ! j ! (t - 1) * assets ! j ! (t - 1))"
      unfolding row s by (simp add: s)
  qed
  have sum: "sum_list ?d = (\<Sum>t<25. ?d ! t)"
    using len by (metis sum_list_sum_nth atLeast0LessThan)
  have "excess_return option_prices call_deltas assets rfr =
      Inr (map (\<lambda>i. map (\<lambda>j. np_sum (d_excess_return option_prices call_deltas assets rfr ! i ! j)) [0..<250]) [0..<4])"
    using assms(1-3) by (simp add: excess_return_def Let_def)
  moreover have "map (\<lambda>i. map (\<lambda>j. np_sum (d_excess_return option_prices call_deltas assets rfr ! i ! j)) [0..<250]) [0..<4] ! i ! j
      = np_sum ?d"
    using assms(4,5) by simp
  ultimately show ?thesis
    using len zero step sum by (simp add: np_sum_def)
qed

theorem excess_return_series_witness:
  "covers3 4 250 25 (replicate 4 (replicate 250 (replicate 25 (Fin 2))))
   \<and> covers3 4 250 25 (replicate 4 (replicate 250 (replicate 25 (Fin (1 / 2)))))
   \<and> covers2 250 25 (replicate 250 (replicate 25 (Fin 100)))
   \<and> (1::nat) < 4 \<and> (3::nat) < 250
   \<and> (\<exists>e_r. excess_return (replicate 4 (replicate 250 (replicate 25 (Fin 2))))
          (replicate 4 (replicate 250 (replicate 25 (Fin (1 / 2)))))
          (replicate 250 (replicate 25 (Fin 100))) (Fin (5 / 100)) = Inr e_r
        \<and> d_excess_return (replicate 4 (replicate 250 (replicate 25 (Fin 2))))
          (replicate 4 (replicate 250 (replicate 25 (Fin (1 / 2)))))
          (replicate 250 (replicate 25 (Fin 100))) (Fin (5 / 100)) ! 1 ! 3 ! 0 = 0)"
proof -
  have c1: "covers3 4 250 25 (replicate 4 (replicate 250 (replicate 25 (Fin 2))))"
    by (intro covers3_replicate covers2_replicate covers1_replicate) simp_all
  have c2: "covers3 4 250 25 (replicate 4 (replicate 250 (replicate 25 (Fin (1 / 2)))))"
    by (intro covers3_replicate covers2_replicate covers1_replicate) simp_all
  have c3: "covers2 250 25 (replicate 250 (replicate 25 (Fin 100)))"
    by (intro covers2_replicate covers1_replicate) simp_all
  have i: "(1::nat) < 4" and j: "(3::nat) < 250" by simp_all
  from excess_return_series [OF c1 c2 c3 i j, of "Fin (5 / 100)"]
  obtain e_r where e: "excess_return (replicate 4 (replicate 250 (replicate 25 (Fin 2))))
          (replicate 4 (replicate 250 (replicate 25 (Fin (1 / 2)))))
          (replicate 250 (replicate 25 (Fin 100))) (Fin (5 / 100)) = Inr e_r"
    and z: "d_excess_return (replicate 4 (replicate 250 (replicate 25 (Fin 2))))
          (replicate 4 (replicate 250 (replicate 25 (Fin (1 / 2)))))
          (replicate 250 (replicate 25 (Fin 100))) (Fin (5 / 100)) ! 1 ! 3 ! 0 = 0"
    by blast
  show ?thesis
    by (intro conjI exI[of _ e_r]) (rule c1 c2 c3 i j e z)+
qed

subsection \<open>The option grid\<close>

lemma grid_cell_tte:
  assumes "j < 25"
  shows "grid_cell assets v k i j =
     bscall (assets ! i ! j) (strikes ! k) g_rfr (volatilities ! v) g_div
       (Fin ((25 - real j) / 260))"
  using assms by (simp add: grid_cell_def Let_def)

text \<open>
  Claim C5.  For every volatility scenario \<open>v\<close>, strike \<open>k\<close>, asset \<open>i\<close> and day
  \<open>j\<close> below 25, the grid holds at \<open>[v][k][i][j]\<close> the price and the delta that the
  pricer returns for that day's spot with the time to expiry \<open>(25 - j) / 260\<close>.  This
  time is never zero, and on the last day of the path (\<open>j = 24\<close>) it is \<open>1 / 260\<close>.
  The single-volatility grid of the second notebook passes the same time to expiry.
\<close>

theorem option_grid_time_to_expiry:
  assumes "covers2 250 25 assets" "v < 5" "k < 4" "i < 250" "j < 25"
  shows "\<exists>option_prices call_deltas.
      option_grid assets = Inr (option_prices, call_deltas)
    \<and> (option_prices ! v ! k ! i ! j, call_deltas ! v ! k ! i ! j) =
        bscall (assets ! i ! j) (strikes ! k) g_rfr (volatilities ! v) g_div
          (Fin ((25 - real j) / 260))
    \<and> (25 - real j) / 260 \<noteq> 0
    \<and> (j = 24 \<longrightarrow> (25 - real j) / 260 = 1 / 260)
    \<and> (\<exists>single. option_prices_single assets = Inr single
         \<and> single ! k ! i ! j =
           bscall_call_only (assets ! i ! j) (strikes ! k) g_rfr g_vol g_div
             (Fin ((25 - real j) / 260)))"
proof -
  have cell: "grid_cell assets v k i j =
     bscall (assets ! i ! j) (strikes ! k) g_rfr (volatilities ! v) g_div
       (Fin ((25 - real j) / 260))"
    using assms(5) by (rule grid_cell_tte)
  have op: "map (\<lambda>v. map (\<lambda>k. map (\<lambda>i. map (\<lambda>j.
            fst (grid_cell assets v k i j)) [0..<25]) [0..<250]) [0..<4]) [0..<5] ! v ! k ! i ! j
      = fst (grid_cell assets v k i j)"
    using assms(2-5) by simp
  have cd: "map (\<lambda>v. map (\<lambda>k. map (\<lambda>i. map (\<lambda>j.
            snd (grid_cell assets v k i j)) [0..<25]) [0..<250]) [0..<4]) [0..<5] ! v ! k ! i ! j
      = snd (grid_cell assets v k i j)"
    using assms(2-5) by simp
  have lenS: "length strikes = 4" by (simp add: strikes_def)
  have single: "map (\<lambda>k. map (\<lambda>i. map (\<lambda>j.
             (let T = 25 - int j;
                  price = assets ! i ! j
              in bscall_call_only price k g_rfr g_vol g_div (Fin (real_of_int T) / Fin 260)))
             [0..<25]) [0..<250]) strikes ! k ! i ! j
      = bscall_call_only (assets ! i ! j) (strikes ! k) g_rfr g_vol g_div
             (Fin ((25 - real j) / 260))"
    using assms(3-5) lenS by (simp add: Let_def)
  have nz: "(25 - real j) / 260 \<noteq> 0" using assms(5) by simp
  have last: "j = 24 \<longrightarrow> (25 - real j) / 260 = 1 / 260" by simp
  show ?thesis
    unfolding option_grid_def option_prices_single_def
    using assms(1) op cd single nz last cell [symmetric]
    by (simp del: upt.simps)
qed


theorem option_grid_time_to_expiry_witness:
  "covers2 250 25 (replicate 250 (replicate 25 (Fin 100)))
   \<and> (2::nat) < 5 \<and> (1::nat) < 4 \<and> (0::nat) < 250 \<and> (24::nat) < 25
   \<and> (\<exists>option_prices call_deltas.
        option_grid (replicate 250 (replicate 25 (Fin 100))) = Inr (option_prices, call_deltas)
      \<and> (option_prices ! 2 ! 1 ! 0 ! 24, call_deltas ! 2 ! 1 ! 0 ! 24) =
          bscall (Fin 100) (Fin 100) g_rfr (Fin (15 / 100)) g_div (Fin (1 / 260)))"
proof -
  have c: "covers2 250 25 (replicate 250 (replicate 25 (Fin 100)))"
    by (intro covers2_replicate covers1_replicate) simp_all
  have b: "(2::nat) < 5" "(1::nat) < 4" "(0::nat) < 250" "(24::nat) < 25" by simp_all
  from option_grid_time_to_expiry [OF c b]
  obtain option_prices call_deltas where
    g: "option_grid (replicate 250 (replicate 25 (Fin 100))) = Inr (option_prices, call_deltas)"
    and e: "(option_prices ! 2 ! 1 ! 0 ! 24, call_deltas ! 2 ! 1 ! 0 ! 24) =
        bscall (replicate 250 (replicate 25 (Fin 100)) ! 0 ! 24) (strikes ! 1) g_rfr
          (volatilities ! 2) g_div (Fin ((25 - real 24) / 260))"
    by blast
  have "(option_prices ! 2 ! 1 ! 0 ! 24, call_deltas ! 2 ! 1 ! 0 ! 24) =
          bscall (Fin 100) (Fin 100) g_rfr (Fin (15 / 100)) g_div (Fin (1 / 260))"
    unfolding e by (simp add: strikes_def volatilities_def)
  with g c b show ?thesis by blast
qed

subsection \<open>The path generator\<close>

lemma day_loop_run:
  assumes "length price = t + n" "1 \<le> t" "0 < price ! (t - 1)"
  shows "\<exists>price' dr'. day_loop z n t (price, dr) = Inr (price', dr')
    \<and> length price' = t + n
    \<and> (\<forall>k<t. price' ! k = price ! k)
    \<and> (\<forall>k. t \<le> k \<and> k < t + n \<longrightarrow>
          price' ! k = price' ! (k - 1) * exp (gbm_R + gbm_v * z k) \<and> 0 < price' ! k)
    \<and> dr' = (if n = 0 then dr else Scalar (ln (price' ! (t + n - 1) / price' ! (t + n - 2))))"
  using assms
proof (induction n arbitrary: t price dr)
  case 0
  then show ?case by simp
next
  case (Suc n)
  define e where "e = exp (gbm_R + gbm_v * z t)"
  define price1 where "price1 = price[t := price ! (t - 1) * e]"
  have epos: "0 < e" by (simp add: e_def)
  have tlt: "t < length price" using Suc.prems(1) by simp
  have p1t: "price1 ! t = price ! (t - 1) * e" using tlt by (simp add: price1_def)
  have p1t1: "price1 ! (t - 1) = price ! (t - 1)" using Suc.prems(2) by (simp add: price1_def)
  have p1pos: "0 < price1 ! t" using p1t Suc.prems(3) epos by simp
  have ratio: "price1 ! t / price1 ! (t - 1) = e"
    using p1t p1t1 Suc.prems(3) by simp
  have ml: "math_log (price1 ! t / price1 ! (t - 1)) = Inr (ln e)"
    unfolding ratio math_log_def using epos by simp
  have step: "day_loop z (Suc n) t (price, dr) = day_loop z n (Suc t) (price1, Scalar (ln e))"
    using ml by (simp add: Let_def price1_def e_def)
  have len1: "length price1 = Suc t + n" using Suc.prems(1) by (simp add: price1_def)
  have pos1: "0 < price1 ! (Suc t - 1)" using p1pos by simp
  from Suc.IH [OF len1 _ pos1, of "Scalar (ln e)"]
  obtain price' dr' where r: "day_loop z n (Suc t) (price1, Scalar (ln e)) = Inr (price', dr')"
    and len': "length price' = Suc t + n"
    and keep: "\<forall>k<Suc t. price' ! k = price1 ! k"
    and rec: "\<forall>k. Suc t \<le> k \<and> k < Suc t + n \<longrightarrow>
          price' ! k = price' ! (k - 1) * exp (gbm_R + gbm_v * z k) \<and> 0 < price' ! k"
    and dr': "dr' = (if n = 0 then Scalar (ln e)
                     else Scalar (ln (price' ! (Suc t + n - 1) / price' ! (Suc t + n - 2))))"
    by auto
  have k1: "\<forall>k<t. price' ! k = price ! k"
    using keep by (simp add: price1_def)
  have pt: "price' ! t = price1 ! t" using keep by simp
  have pt1: "price' ! (t - 1) = price1 ! (t - 1)" using keep Suc.prems(2) by simp
  have at_t: "price' ! t = price' ! (t - 1) * exp (gbm_R + gbm_v * z t) \<and> 0 < price' ! t"
    using pt pt1 p1t p1t1 p1pos by (simp add: e_def)
  have k2: "\<forall>k. t \<le> k \<and> k < t + Suc n \<longrightarrow>
          price' ! k = price' ! (k - 1) * exp (gbm_R + gbm_v * z k) \<and> 0 < price' ! k"
  proof (intro allI impI)
    fix k assume k: "t \<le> k \<and> k < t + Suc n"
    show "price' ! k = price' ! (k - 1) * exp (gbm_R + gbm_v * z k) \<and> 0 < price' ! k"
    proof (cases "k = t")
      case True
      then show ?thesis using at_t by simp
    next
      case False
      then have "Suc t \<le> k \<and> k < Suc t + n" using k by simp
      then show ?thesis using rec by blast
    qed
  qed
  have k3: "dr' = Scalar (ln (price' ! (t + Suc n - 1) / price' ! (t + Suc n - 2)))"
  proof (cases "n = 0")
    case True
    have "price' ! t / price' ! (t - 1) = e" using pt pt1 ratio by simp
    then show ?thesis using dr' True Suc.prems(2)
      by (simp add: numeral_2_eq_2)
  next
    case False
    then show ?thesis using dr' by simp
  qed
  have k3': "dr' = (if Suc n = 0 then dr
                    else Scalar (ln (price' ! (t + Suc n - 1) / price' ! (t + Suc n - 2))))"
    using k3 by (simp only: nat.distinct if_False)
  have len'': "length price' = t + Suc n" using len' by simp
  show ?case
    unfolding step r using len'' k1 k2 k3' by blast
qed

lemma gen_path_run:
  "\<exists>price l. gen_path z junk = Inr (price, Scalar l)
    \<and> length price = 25 \<and> price ! 0 = 100
    \<and> (\<forall>k. 1 \<le> k \<and> k < 25 \<longrightarrow>
          price ! k = price ! (k - 1) * exp (gbm_R + gbm_v * z k) \<and> 0 < price ! k)
    \<and> l = ln (price ! 24 / price ! 23)"
proof -
  define price0 where "price0 = (np_empty junk 25)[0 := 100]"
  define dr0 where "dr0 = Arr ((np_empty junk 25)[0 := 0])"
  have len0: "length price0 = 1 + 24" by (simp add: price0_def np_empty_def)
  have pos0: "0 < price0 ! (1 - 1)" by (simp add: price0_def np_empty_def)
  have p00: "price0 ! 0 = 100" by (simp add: price0_def np_empty_def)
  have one: "(1::nat) \<le> 1" by simp
  from day_loop_run [OF len0 one pos0, of z dr0]
  obtain price' dr' where r: "day_loop z 24 1 (price0, dr0) = Inr (price', dr')"
    and len': "length price' = 1 + 24"
    and keep: "\<forall>k<1. price' ! k = price0 ! k"
    and rec: "\<forall>k. 1 \<le> k \<and> k < 1 + 24 \<longrightarrow>
          price' ! k = price' ! (k - 1) * exp (gbm_R + gbm_v * z k) \<and> 0 < price' ! k"
    and dr': "dr' = (if (24::nat) = 0 then dr0
                     else Scalar (ln (price' ! (1 + 24 - 1) / price' ! (1 + 24 - 2))))"
    by blast
  have d: "dr' = Scalar (ln (price' ! 24 / price' ! 23))"
    using dr' by simp
  have g: "gen_path z junk = Inr (price', Scalar (ln (price' ! 24 / price' ! 23)))"
    using r d by (simp add: gen_path_def Let_def price0_def dr0_def)
  have l: "length price' = 25" using len' by simp
  have z0: "price' ! 0 = 100" using keep p00 by simp
  have n25: "(1::nat) + 24 = 25" by simp
  have rc: "\<forall>k. 1 \<le> k \<and> k < 25 \<longrightarrow>
          price' ! k = price' ! (k - 1) * exp (gbm_R + gbm_v * z k) \<and> 0 < price' ! k"
    using rec unfolding n25 .
  show ?thesis
    using g l z0 rc by blast
qed


lemma asset_rows_run:
  "\<exists>price. asset_rows z junk i =
        Inr (map Fin price, replicate 25 (Fin (ln (price ! 24 / price ! 23))))
    \<and> length price = 25 \<and> price ! 0 = 100
    \<and> (\<forall>k. 1 \<le> k \<and> k < 25 \<longrightarrow>
          price ! k = price ! (k - 1) * exp (gbm_R + gbm_v * z (24 * i + (k - 1)))
          \<and> 0 < price ! k)"
proof -
  from gen_path_run [of "\<lambda>t. z (24 * i + (t - 1))" junk]
  obtain price l where g: "gen_path (\<lambda>t. z (24 * i + (t - 1))) junk = Inr (price, Scalar l)"
    and len: "length price = 25" and p0: "price ! 0 = 100"
    and rec: "\<forall>k. 1 \<le> k \<and> k < 25 \<longrightarrow>
          price ! k = price ! (k - 1) * exp (gbm_R + gbm_v * z (24 * i + (k - 1)))
          \<and> 0 < price ! k"
    and l: "l = ln (price ! 24 / price ! 23)"
    by blast
  have "asset_rows z junk i = Inr (map Fin price, replicate 25 (Fin l))"
    unfolding asset_rows_def g by (simp add: len)
  then show ?thesis using len p0 rec l by blast
qed

lemma sequence_rows_Inr: "sequence_rows (map Inr as) = Inr as"
  by (induction as) simp_all

lemma sequence_rows_total:
  assumes "\<forall>i<n. \<exists>a. f i = Inr a"
  shows "\<exists>rows. sequence_rows (map f [0..<n]) = Inr rows \<and> length rows = n
           \<and> (\<forall>i<n. f i = Inr (rows ! i))"
proof -
  define rows where "rows = map (\<lambda>i. projr (f i)) [0..<n]"
  have "map f [0..<n] = map Inr rows"
    unfolding rows_def using assms by auto
  then have "sequence_rows (map f [0..<n]) = Inr rows"
    by (simp add: sequence_rows_Inr)
  moreover have "length rows = n" by (simp add: rows_def)
  moreover have "\<forall>i<n. f i = Inr (rows ! i)"
    using assms by (auto simp: rows_def)
  ultimately show ?thesis by blast
qed

lemma simulate_run:
  "\<exists>assets daily_returns. simulate z junk = Inr (assets, daily_returns)
    \<and> length assets = 250 \<and> length daily_returns = 250
    \<and> (\<forall>i<250. \<exists>price. assets ! i = map Fin price
          \<and> daily_returns ! i = replicate 25 (Fin (ln (price ! 24 / price ! 23)))
          \<and> length price = 25 \<and> price ! 0 = 100
          \<and> (\<forall>k. 1 \<le> k \<and> k < 25 \<longrightarrow>
                price ! k = price ! (k - 1) * exp (gbm_R + gbm_v * z (24 * i + (k - 1)))
                \<and> 0 < price ! k))"
proof -
  have "\<forall>i<250. \<exists>a. asset_rows z junk i = Inr a"
    using asset_rows_run by blast
  from sequence_rows_total [OF this]
  obtain rows where s: "sequence_rows (map (asset_rows z junk) [0..<250]) = Inr rows"
    and len: "length rows = 250"
    and row: "\<forall>i<250. asset_rows z junk i = Inr (rows ! i)"
    by blast
  have sim: "simulate z junk = Inr (map fst rows, map snd rows)"
    by (simp add: simulate_def s)
  have each: "\<forall>i<250. \<exists>price. map fst rows ! i = map Fin price
          \<and> map snd rows ! i = replicate 25 (Fin (ln (price ! 24 / price ! 23)))
          \<and> length price = 25 \<and> price ! 0 = 100
          \<and> (\<forall>k. 1 \<le> k \<and> k < 25 \<longrightarrow>
                price ! k = price ! (k - 1) * exp (gbm_R + gbm_v * z (24 * i + (k - 1)))
                \<and> 0 < price ! k)"
  proof (intro allI impI)
    fix i :: nat assume i: "i < 250"
    from asset_rows_run [of z junk i]
    obtain price where a: "asset_rows z junk i =
        Inr (map Fin price, replicate 25 (Fin (ln (price ! 24 / price ! 23))))"
      and rest: "length price = 25" "price ! 0 = 100"
        "\<forall>k. 1 \<le> k \<and> k < 25 \<longrightarrow>
          price ! k = price ! (k - 1) * exp (gbm_R + gbm_v * z (24 * i + (k - 1)))
          \<and> 0 < price ! k"
      by blast
    have "rows ! i = (map Fin price, replicate 25 (Fin (ln (price ! 24 / price ! 23))))"
      using row i a by simp
    then have "map fst rows ! i = map Fin price"
      "map snd rows ! i = replicate 25 (Fin (ln (price ! 24 / price ! 23)))"
      using i len by simp_all
    then show "\<exists>price. map fst rows ! i = map Fin price
          \<and> map snd rows ! i = replicate 25 (Fin (ln (price ! 24 / price ! 23)))
          \<and> length price = 25 \<and> price ! 0 = 100
          \<and> (\<forall>k. 1 \<le> k \<and> k < 25 \<longrightarrow>
                price ! k = price ! (k - 1) * exp (gbm_R + gbm_v * z (24 * i + (k - 1)))
                \<and> 0 < price ! k)"
      using rest by blast
  qed
  have "length (map fst rows) = 250" "length (map snd rows) = 250" using len by simp_all
  then show ?thesis using sim each by blast
qed

text \<open>
  Claim C4.  Whatever the normal draws \<open>z\<close> and the contents of the fresh arrays, the
  generator returns without an exception; each of the 250 paths has 25 prices, starts at
  exactly 100, every price is a positive real, and each price after the first is the
  previous one times \<open>exp (R + v * z)\<close> for that day's draw.
\<close>

theorem simulate_paths_positive:
  "\<exists>assets daily_returns. simulate z junk = Inr (assets, daily_returns)
    \<and> length assets = 250
    \<and> (\<forall>i<250. length (assets ! i) = 25 \<and> assets ! i ! 0 = Fin 100
          \<and> (\<forall>t<25. \<exists>p. assets ! i ! t = Fin p \<and> 0 < p)
          \<and> (\<forall>t. 1 \<le> t \<and> t < 25 \<longrightarrow> assets ! i ! t =
                assets ! i ! (t - 1) * Fin (exp (gbm_R + gbm_v * z (24 * i + (t - 1))))))"
proof -
  from simulate_run [of z junk]
  obtain assets daily_returns where sim: "simulate z junk = Inr (assets, daily_returns)"
    and len: "length assets = 250"
    and each: "\<forall>i<250. \<exists>price. assets ! i = map Fin price
          \<and> daily_returns ! i = replicate 25 (Fin (ln (price ! 24 / price ! 23)))
          \<and> length price = 25 \<and> price ! 0 = 100
          \<and> (\<forall>k. 1 \<le> k \<and> k < 25 \<longrightarrow>
                price ! k = price ! (k - 1) * exp (gbm_R + gbm_v * z (24 * i + (k - 1)))
                \<and> 0 < price ! k)"
    by blast
  have "\<forall>i<250. length (assets ! i) = 25 \<and> assets ! i ! 0 = Fin 100
          \<and> (\<forall>t<25. \<exists>p. assets ! i ! t = Fin p \<and> 0 < p)
          \<and> (\<forall>t. 1 \<le> t \<and> t < 25 \<longrightarrow> assets ! i ! t =
                assets ! i ! (t - 1) * Fin (exp (gbm_R + gbm_v * z (24 * i + (t - 1)))))"
  proof (intro allI impI)
    fix i :: nat assume i: "i < 250"
    from each i obtain price where a: "assets ! i = map Fin price"
      and l: "length price = 25" and p0: "price ! 0 = 100"
      and rec: "\<forall>k. 1 \<le> k \<and> k < 25 \<longrightarrow>
                price ! k = price ! (k - 1) * exp (gbm_R + gbm_v * z (24 * i + (k - 1)))
                \<and> 0 < price ! k"
      by blast
    have pos: "0 < price ! t" if "t < 25" for t
    proof (cases "t = 0")
      case True
      then show ?thesis using p0 by simp
    next
      case False
      then have "1 \<le> t \<and> t < 25" using that by simp
      then show ?thesis using rec by blast
    qed
    have c1: "length (assets ! i) = 25" using a l by simp
    have c2: "assets ! i ! 0 = Fin 100" using a l p0 by simp
    have c3: "\<forall>t<25. \<exists>p. assets ! i ! t = Fin p \<and> 0 < p"
      using a l pos by simp
    have c4: "\<forall>t. 1 \<le> t \<and> t < 25 \<longrightarrow> assets ! i ! t =
                assets ! i ! (t - 1) * Fin (exp (gbm_R + gbm_v * z (24 * i + (t - 1))))"
    proof (intro allI impI)
      fix t :: nat assume t: "1 \<le> t \<and> t < 25"
      then have "price ! t = price ! (t - 1) * exp (gbm_R + gbm_v * z (24 * i + (t - 1)))"
        using rec by blast
      moreover have "t < length price" "t - 1 < length price" using l t by auto
      then have "assets ! i ! t = Fin (price ! t)" "assets ! i ! (t - 1) = Fin (price ! (t - 1))"
        unfolding a by (simp_all only: nth_map)
      ultimately show "assets ! i ! t =
                assets ! i ! (t - 1) * Fin (exp (gbm_R + gbm_v * z (24 * i + (t - 1))))"
        by simp
    qed
    show "length (assets ! i) = 25 \<and> assets ! i ! 0 = Fin 100
          \<and> (\<forall>t<25. \<exists>p. assets ! i ! t = Fin p \<and> 0 < p)
          \<and> (\<forall>t. 1 \<le> t \<and> t < 25 \<longrightarrow> assets ! i ! t =
                assets ! i ! (t - 1) * Fin (exp (gbm_R + gbm_v * z (24 * i + (t - 1)))))"
      using c1 c2 c3 c4 by blast
  qed
  then show ?thesis using sim len by blast
qed

theorem simulate_paths_positive_witness:
  "\<exists>assets daily_returns. simulate (\<lambda>n. 0) (\<lambda>n. 0) = Inr (assets, daily_returns)
     \<and> assets ! 0 ! 0 = Fin 100
     \<and> (\<exists>p. assets ! 0 ! 24 = Fin p \<and> 0 < p)
     \<and> assets ! 0 ! 1 = assets ! 0 ! 0 * Fin (exp (gbm_R + gbm_v * 0))"
proof -
  from simulate_paths_positive [of "\<lambda>n. 0" "\<lambda>n. 0"]
  obtain assets daily_returns where
    sim: "simulate (\<lambda>n. 0) (\<lambda>n. 0) = Inr (assets, daily_returns)"
    and each: "\<forall>i<250. length (assets ! i) = 25 \<and> assets ! i ! 0 = Fin 100
          \<and> (\<forall>t<25. \<exists>p. assets ! i ! t = Fin p \<and> 0 < p)
          \<and> (\<forall>t. 1 \<le> t \<and> t < 25 \<longrightarrow> assets ! i ! t =
                assets ! i ! (t - 1) * Fin (exp (gbm_R + gbm_v * (\<lambda>n. 0) (24 * i + (t - 1)))))"
    by blast
  have i: "(0::nat) < 250" by simp
  have a: "assets ! 0 ! 0 = Fin 100" using each i by blast
  have b: "\<forall>t<25. \<exists>p. assets ! 0 ! t = Fin p \<and> 0 < p" using each i by blast
  have "(24::nat) < 25" by simp
  with b have b': "\<exists>p. assets ! 0 ! 24 = Fin p \<and> 0 < p" by blast
  have c: "\<forall>t. 1 \<le> t \<and> t < 25 \<longrightarrow> assets ! 0 ! t =
                assets ! 0 ! (t - 1) * Fin (exp (gbm_R + gbm_v * (\<lambda>n. 0) (24 * 0 + (t - 1))))"
    using each i by blast
  have "(1::nat) \<le> 1 \<and> (1::nat) < 25" by simp
  with c have "assets ! 0 ! 1 =
                assets ! 0 ! (1 - 1) * Fin (exp (gbm_R + gbm_v * (\<lambda>n. 0) (24 * 0 + (1 - 1))))"
    by blast
  then have c': "assets ! 0 ! 1 = assets ! 0 ! 0 * Fin (exp (gbm_R + gbm_v * 0))" by simp
  show ?thesis using sim a b' c' by blast
qed

subsection \<open>The realised volatility\<close>

lemma np_sum_replicate: "np_sum (replicate n (Fin x)) = Fin (real n * x)"
  unfolding np_sum_def by (induction n) (simp_all add: zero_npfloat_def algebra_simps)

lemma np_mean_replicate: "0 < n \<Longrightarrow> np_mean (replicate n (Fin x)) = Fin x"
  by (simp add: np_mean_def np_sum_replicate)

lemma np_std_replicate: "0 < n \<Longrightarrow> np_std (replicate n (Fin x)) = Fin 0"
proof -
  assume n: "0 < n"
  have "np_sum (replicate n (Fin 0)) / Fin (real n) = Fin 0"
    using n by (simp add: np_sum_replicate)
  then show ?thesis
    using n by (simp add: np_std_def np_mean_replicate Let_def Fin_minus)
qed



subsection \<open>Aggregation on small collections\<close>

text \<open>
  Claim C8, as the code has it.  The notebooks aggregate with \<open>np.mean\<close>, \<open>np.std\<close>
  and \<open>np.sum\<close> and raise no error of their own.  On an empty collection the mean and
  the standard deviation are \<open>nan\<close>:
\<close>

theorem np_mean_empty_is_nan: "np_mean [] = NaN \<and> np_std [] = NaN"
  by (simp add: np_mean_def np_std_def np_sum_def zero_npfloat_def)

text \<open>
  Claim C8, amended.  On an empty collection the mean and the standard deviation are
  \<open>nan\<close> and the count (a sum of indicators) is 0; on a collection of one finite value
  the population standard deviation is 0.
\<close>

theorem aggregation_edge_cases:
  "np_mean [] = NaN \<and> np_std [] = NaN \<and> np_sum [] = 0 \<and> np_std [Fin x] = 0"
proof -
  have m: "np_mean [] = NaN" by (simp add: np_mean_def np_sum_def zero_npfloat_def)
  have s: "np_std [] = NaN" by (simp add: np_std_def np_sum_def zero_npfloat_def)
  have c: "np_sum [] = 0" by (simp add: np_sum_def)
  have "np_std (replicate 1 (Fin x)) = Fin 0" by (rule np_std_replicate) simp
  then have o: "np_std [Fin x] = 0" by (simp add: zero_npfloat_def)
  show ?thesis using m s c o by blast
qed

subsection \<open>The in-the-money summary\<close>

lemma np_sum_Fin: "np_sum (map Fin xs) = Fin (sum_list xs)"
  unfolding np_sum_def by (induction xs) (simp_all add: zero_npfloat_def)

lemma np_mean_Fin:
  "xs \<noteq> [] \<Longrightarrow> np_mean (map Fin xs) = Fin (sum_list xs / real (length xs))"
  by (simp add: np_mean_def np_sum_Fin)

lemma np_std_Fin:
  assumes "xs \<noteq> []"
  shows "np_std (map Fin xs) =
     Fin (sqrt (sum_list (map (\<lambda>y. (y - sum_list xs / real (length xs))\<^sup>2) xs)
                  / real (length xs)))"
proof -
  let ?m = "sum_list xs / real (length xs)"
  have sq: "map (\<lambda>a. a * a) (map (\<lambda>a. a - Fin ?m) (map Fin xs))
      = map Fin (map (\<lambda>y. (y - ?m)\<^sup>2) xs)"
    by (simp add: Fin_minus power2_eq_square)
  have nn: "0 \<le> sum_list (map (\<lambda>y. (y - ?m)\<^sup>2) xs) / real (length xs)"
    by (intro divide_nonneg_nonneg sum_list_nonneg) auto
  have "np_std (map Fin xs) =
      np_sqrt (np_sum (map Fin (map (\<lambda>y. (y - ?m)\<^sup>2) xs)) / Fin (real (length xs)))"
    unfolding np_std_def Let_def np_mean_Fin [OF assms] sq by simp
  also have "\<dots> = np_sqrt (Fin (sum_list (map (\<lambda>y. (y - ?m)\<^sup>2) xs) / real (length xs)))"
    unfolding np_sum_Fin using assms by simp
  also have "\<dots> = Fin (sqrt (sum_list (map (\<lambda>y. (y - ?m)\<^sup>2) xs) / real (length xs)))"
    using nn by simp
  finally show ?thesis .
qed

lemma map_nth_upt: "map (\<lambda>p. f (xs ! p)) [0..<length xs] = map f xs"
  by (rule nth_equalityI) simp_all

lemma inTheMoney_row:
  assumes "length fp = 250" "i < 4" "strikes ! i = Fin s"
  shows "inTheMoney (map Fin fp) ! i =
     map (\<lambda>x. (Fin (if s < x then 1 else 0), Fin (max (x - s) 0))) fp"
proof -
  have "inTheMoney (map Fin fp) ! i =
      map (\<lambda>p. if np_less (Fin s) (map Fin fp ! p)
                then (Fin 1, map Fin fp ! p - Fin s) else (Fin 0, Fin 0)) [0..<length fp]"
    using assms by (simp add: inTheMoney_def del: upt.simps)
  also have "\<dots> = map (\<lambda>p. (\<lambda>x. (Fin (if s < x then 1 else 0), Fin (max (x - s) 0))) (fp ! p))
                     [0..<length fp]"
    by (rule map_cong) (auto simp: Fin_minus max_def)
  also have "\<dots> = map (\<lambda>x. (Fin (if s < x then 1 else 0), Fin (max (x - s) 0))) fp"
    by (rule map_nth_upt)
  finally show ?thesis .
qed

lemma sum_list_indicator:
  "sum_list (map (\<lambda>x. if P x then 1 else (0::real)) xs) = real (length (filter P xs))"
  by (induction xs) simp_all

lemma avg_ITM_closed:
  assumes "length fp = 250" "i < 4" "strikes ! i = Fin s"
  shows "avg_ITM (map Fin fp) ! i = Fin (sum_list (map (\<lambda>x. max (x - s) 0) fp) / 250)"
proof -
  have ne: "map (\<lambda>x. max (x - s) 0) fp \<noteq> []" using assms(1) by auto
  have "map (\<lambda>c. snd c * fst c) (inTheMoney (map Fin fp) ! i)
      = map Fin (map (\<lambda>x. max (x - s) 0) fp)"
    unfolding inTheMoney_row [OF assms] by (simp add: max_def)
  then have "avg_ITM (map Fin fp) ! i = np_mean (map Fin (map (\<lambda>x. max (x - s) 0) fp))"
    using assms(2) by (simp add: avg_ITM_def)
  then show ?thesis
    unfolding np_mean_Fin [OF ne] using assms(1) by simp
qed

lemma num_ITM_closed:
  assumes "length fp = 250" "i < 4" "strikes ! i = Fin s"
  shows "num_ITM (map Fin fp) ! i = Fin (real (length (filter (\<lambda>x. s < x) fp)))"
proof -
  have "map fst (inTheMoney (map Fin fp) ! i)
      = map Fin (map (\<lambda>x. if s < x then 1 else 0) fp)"
    unfolding inTheMoney_row [OF assms] by simp
  then have "num_ITM (map Fin fp) ! i = np_sum (map Fin (map (\<lambda>x. if s < x then 1 else 0) fp))"
    using assms(2) by (simp add: num_ITM_def)
  then show ?thesis
    unfolding np_sum_Fin sum_list_indicator by simp
qed

lemma stdev_ITM_closed:
  assumes "length fp = 250" "i < 4" "strikes ! i = Fin s"
  shows "stdev_ITM (map Fin fp) ! i =
     np_std (map Fin (map (\<lambda>x. (if s < x then 1 else 0) * max (x - s) 0) fp))"
proof -
  have "map (\<lambda>c. fst c * snd c) (inTheMoney (map Fin fp) ! i)
      = map Fin (map (\<lambda>x. (if s < x then 1 else 0) * max (x - s) 0) fp)"
    unfolding inTheMoney_row [OF assms] by simp
  then show ?thesis
    using assms(2) by (simp add: stdev_ITM_def)
qed

text \<open>
  Claim C7, amended.  For 250 finite final prices and each strike \<open>s\<close>, the summary
  holds per path the indicator (1 iff the final price exceeds the strike, else 0) and the
  payoff \<open>max (final - s) 0\<close>; the count is the number of in-the-money paths; the
  reported mean is the mean of the indicator-weighted payoff over all 250 paths, that is
  the sum of the payoffs divided by 250; the reported standard deviation is that of the
  indicator-weighted payoff.
\<close>

theorem itm_summary_values:
  assumes "length fp = 250" "i < 4" "strikes ! i = Fin s"
  shows "\<exists>avg sd num. itm_summary (map Fin fp) = Inr (avg, sd, num)
    \<and> (\<forall>p<250. inTheMoney (map Fin fp) ! i ! p =
          (Fin (if s < fp ! p then 1 else 0), Fin (max (fp ! p - s) 0)))
    \<and> num ! i = Fin (real (length (filter (\<lambda>x. s < x) fp)))
    \<and> avg ! i = Fin (sum_list (map (\<lambda>x. max (x - s) 0) fp) / 250)
    \<and> sd ! i = np_std (map Fin (map (\<lambda>x. (if s < x then 1 else 0) * max (x - s) 0) fp))"
proof -
  have c: "covers1 250 (map Fin fp)" using assms(1) by (simp add: covers1_def)
  have s: "itm_summary (map Fin fp) =
      Inr (avg_ITM (map Fin fp), stdev_ITM (map Fin fp), num_ITM (map Fin fp))"
    using c by (simp add: itm_summary_def)
  have cell: "\<forall>p<250. inTheMoney (map Fin fp) ! i ! p =
          (Fin (if s < fp ! p then 1 else 0), Fin (max (fp ! p - s) 0))"
    unfolding inTheMoney_row [OF assms] using assms(1) by simp
  show ?thesis
    using s cell num_ITM_closed [OF assms] avg_ITM_closed [OF assms] stdev_ITM_closed [OF assms]
    by blast
qed

theorem itm_summary_values_witness:
  "length (101 # replicate 249 (99::real)) = 250 \<and> (1::nat) < 4 \<and> strikes ! 1 = Fin 100
   \<and> (\<exists>avg sd num. itm_summary (map Fin (101 # replicate 249 99)) = Inr (avg, sd, num)
        \<and> num ! 1 = Fin 1 \<and> avg ! 1 = Fin (1 / 250))"
proof -
  have l: "length (101 # replicate 249 (99::real)) = 250" by simp
  have i: "(1::nat) < 4" by simp
  have k: "strikes ! 1 = Fin 100" by (simp add: strikes_def)
  from itm_summary_values [OF l i k]
  obtain avg sd num where s: "itm_summary (map Fin (101 # replicate 249 99)) = Inr (avg, sd, num)"
    and n: "num ! 1 = Fin (real (length (filter (\<lambda>x. 100 < x) (101 # replicate 249 (99::real)))))"
    and a: "avg ! 1 = Fin (sum_list (map (\<lambda>x. max (x - 100) 0) (101 # replicate 249 (99::real))) / 250)"
    by blast
  have n': "num ! 1 = Fin 1" unfolding n by simp
  have a': "avg ! 1 = Fin (1 / 250)" unfolding a by (simp add: sum_list_replicate)
  show ?thesis using l i k s n' a' by blast
qed

text \<open>
  Claim C7 as stated fails: with one path ending at 101 and 249 paths ending at 99, the
  strike 100 has the reported mean 1/250, while the mean over the in-the-money paths
  alone is 1.
\<close>

theorem avg_ITM_not_conditional:
  "avg_ITM (map Fin (101 # replicate 249 99)) ! 1 = Fin (1 / 250)
   \<and> itm_mean_given_itm_spec (101 # replicate 249 99) 100 = 1"
proof -
  have l: "length (101 # replicate 249 (99::real)) = 250" by simp
  have i: "(1::nat) < 4" by simp
  have k: "strikes ! 1 = Fin 100" by (simp add: strikes_def)
  have "avg_ITM (map Fin (101 # replicate 249 99)) ! 1 = Fin (1 / 250)"
    unfolding avg_ITM_closed [OF l i k] by (simp add: sum_list_replicate)
  moreover have "itm_mean_given_itm_spec (101 # replicate 249 99) 100 = 1"
    by (simp add: itm_mean_given_itm_spec_def)
  ultimately show ?thesis by blast
qed

subsection \<open>The pricer\<close>

lemma bscall_finite:
  assumes "0 < S" "0 < K" "0 < v" "0 < T"
  shows "bscall (Fin S) (Fin K) (Fin r) (Fin v) (Fin q) (Fin T) =
     (Fin (S * exp (- q * T) * norm_cdf ((ln (S / K) + (r - q + v\<^sup>2 / 2) * T) / (v * sqrt T))
           - K * exp (- r * T)
               * norm_cdf ((ln (S / K) + (r - q + v\<^sup>2 / 2) * T) / (v * sqrt T) - v * sqrt T)),
      Fin (norm_cdf ((ln (S / K) + (r - q + v\<^sup>2 / 2) * T) / (v * sqrt T))))"
proof -
  have sk: "0 < S / K" using assms by simp
  have den: "v * sqrt T \<noteq> 0" using assms by simp
  show ?thesis
    using sk den assms
    by (simp add: bscall_def Let_def Fin_minus power2_eq_square)
qed

lemma bscall_call_only_fst:
  "bscall_call_only price strike rfr v dv T = fst (bscall price strike rfr v dv T)"
  by (simp add: bscall_def bscall_call_only_def Let_def)

text \<open>
  Claim C2.  For a positive spot, strike, volatility and time to expiry (and any rate and
  dividend yield), the pricer returns the pair of the call price and the delta given by
  the Black-Scholes formulas with \<open>d1\<close> and \<open>d2\<close> as below; no infinity or \<open>nan\<close>
  arises.  The pricer of the second notebook returns the same call price alone.
\<close>

theorem bscall_formula:
  assumes "0 < spot" "0 < strike" "0 < volatility" "0 < T"
  shows "let d1 = (ln (spot / strike) + (rate - dividend_yield + volatility\<^sup>2 / 2) * T)
                    / (volatility * sqrt T);
             d2 = d1 - volatility * sqrt T;
             call_price = spot * exp (- dividend_yield * T) * norm_cdf d1
                          - strike * exp (- rate * T) * norm_cdf d2;
             delta = norm_cdf d1
         in bscall (Fin spot) (Fin strike) (Fin rate) (Fin volatility) (Fin dividend_yield) (Fin T)
              = (Fin call_price, Fin delta)
          \<and> bscall_call_only (Fin spot) (Fin strike) (Fin rate) (Fin volatility)
               (Fin dividend_yield) (Fin T) = Fin call_price"
  unfolding Let_def bscall_call_only_fst bscall_finite [OF assms] by simp

theorem bscall_formula_witness:
  "(0::real) < 100 \<and> (0::real) < 97 \<and> (0::real) < 15 / 100 \<and> (0::real) < 25 / 260
   \<and> snd (bscall (Fin 100) (Fin 97) (Fin (5 / 100)) (Fin (15 / 100)) (Fin 0) (Fin (25 / 260)))
       = Fin (norm_cdf ((ln (100 / 97) + (5 / 100 - 0 + (15 / 100)\<^sup>2 / 2) * (25 / 260))
                          / (15 / 100 * sqrt (25 / 260))))"
proof -
  have h: "(0::real) < 100" "(0::real) < 97" "(0::real) < 15 / 100" "(0::real) < 25 / 260"
    by simp_all
  from bscall_formula [OF h, of "5 / 100" 0]
  have "snd (bscall (Fin 100) (Fin 97) (Fin (5 / 100)) (Fin (15 / 100)) (Fin 0) (Fin (25 / 260)))
       = Fin (norm_cdf ((ln (100 / 97) + (5 / 100 - 0 + (15 / 100)\<^sup>2 / 2) * (25 / 260))
                          / (15 / 100 * sqrt (25 / 260))))"
    unfolding Let_def by simp
  with h show ?thesis by blast
qed

lemma bscall_expiry_above:
  assumes "0 < K" "K < S" "0 < v"
  shows "bscall (Fin S) (Fin K) (Fin r) (Fin v) (Fin q) (Fin 0) = (Fin (S - K), Fin 1)"
proof -
  have "1 < S / K" using assms by simp
  then have l: "0 < ln (S / K)" and p: "0 < S / K" by simp_all
  show ?thesis
    using l p assms by (simp add: bscall_def Let_def minus_npfloat_def)
qed

lemma bscall_expiry_below:
  assumes "0 < S" "S < K" "0 < v"
  shows "bscall (Fin S) (Fin K) (Fin r) (Fin v) (Fin q) (Fin 0) = (Fin 0, Fin 0)"
proof -
  have "S / K < 1" and p: "0 < S / K" using assms by simp_all
  then have l: "ln (S / K) < 0" by simp
  show ?thesis
    using l p assms by (simp add: bscall_def Let_def minus_npfloat_def)
qed

lemma bscall_expiry_at:
  assumes "0 < S" "0 < v"
  shows "bscall (Fin S) (Fin S) (Fin r) (Fin v) (Fin q) (Fin 0) = (NaN, NaN)"
  using assms by (simp add: bscall_def Let_def minus_npfloat_def)

text \<open>
  Claim C3, amended.  The pricer has no special case for a time to expiry of 0: it
  evaluates the same formula and divides by \<open>vol * sqrt 0 = 0\<close>.  For a positive spot,
  strike and volatility, \<open>d1\<close> is then \<open>+inf\<close> when the spot is above the strike and the
  result is \<open>(spot - strike, 1)\<close>; it is \<open>-inf\<close> when the spot is below the strike and
  the result is \<open>(0, 0)\<close>; at spot equal to strike \<open>d1\<close> is \<open>0 / 0\<close> and both the
  price and the delta are \<open>nan\<close>.
\<close>

theorem bscall_at_expiry:
  assumes "0 < spot" "0 < strike" "0 < volatility"
  shows "bscall (Fin spot) (Fin strike) (Fin rate) (Fin volatility) (Fin dividend_yield) (Fin 0)
     = (if strike < spot then (Fin (spot - strike), Fin 1)
        else if spot < strike then (Fin 0, Fin 0)
        else (NaN, NaN))"
proof -
  consider "strike < spot" | "spot < strike" | "spot = strike" by linarith
  then show ?thesis
  proof cases
    case 1
    then show ?thesis using bscall_expiry_above [OF assms(2) 1 assms(3)] by simp
  next
    case 2
    then show ?thesis using bscall_expiry_below [OF assms(1) 2 assms(3)] by simp
  next
    case 3
    then show ?thesis using bscall_expiry_at [OF assms(1) assms(3)] by simp
  qed
qed

theorem bscall_at_expiry_witness:
  "(0::real) < 105 \<and> (0::real) < 100 \<and> (0::real) < 15 / 100
   \<and> bscall (Fin 105) (Fin 100) (Fin (5 / 100)) (Fin (15 / 100)) (Fin 0) (Fin 0)
       = (Fin 5, Fin 1)"
proof -
  have h: "(0::real) < 105" "(0::real) < 100" "(0::real) < 15 / 100" by simp_all
  from bscall_at_expiry [OF h, of "5 / 100" 0]
  have "bscall (Fin 105) (Fin 100) (Fin (5 / 100)) (Fin (15 / 100)) (Fin 0) (Fin 0)
       = (Fin 5, Fin 1)"
    by simp
  with h show ?thesis by blast
qed

text \<open>
  Claim C3 as stated fails: at the money, with the notebook's rate, volatility and
  dividend yield, a time to expiry of 0 yields \<open>nan\<close> for the price and for the delta.
\<close>

theorem bscall_nan_at_the_money_expiry:
  "bscall (Fin 100) (Fin 100) g_rfr g_vol g_div (Fin 0) = (NaN, NaN)"
  unfolding g_rfr_def g_vol_def g_div_def by (rule bscall_expiry_at) simp_all

subsection \<open>Lot rounding\<close>

lemma round_half_even_near: "\<bar>x - of_int (round_half_even x)\<bar> \<le> 1 / 2"
proof -
  have "0 \<le> x - of_int \<lfloor>x\<rfloor>" "x - of_int \<lfloor>x\<rfloor> < 1" by linarith+
  then show ?thesis
    by (auto simp: round_half_even_def Let_def)
qed

lemma lot_round_finite:
  assumes "0 < K"
  shows "lot_round (Fin K) (Fin d) = Fin (K * of_int (round_half_even (d / K)))"
  using assms by (simp add: lot_round_def)

lemma lot_round_near:
  assumes "0 < K"
  shows "\<bar>d - K * of_int (round_half_even (d / K))\<bar> \<le> K / 2"
proof -
  have "\<bar>d - K * of_int (round_half_even (d / K))\<bar>
      = K * \<bar>d / K - of_int (round_half_even (d / K))\<bar>"
    using assms by (simp add: abs_mult_pos' right_diff_distrib)
  also have "\<dots> \<le> K * (1 / 2)"
    using assms round_half_even_near [of "d / K"] by (intro mult_left_mono) simp_all
  finally show ?thesis by simp
qed

lemma covers2_nth:
  assumes "covers2 m n xss" "j < m"
  shows "j < length xss" "n \<le> length (xss ! j)"
proof -
  show j: "j < length xss" using assms by (simp add: covers2_def)
  have "list_all (covers1 n) (take m xss)" using assms(1) by (simp add: covers2_def)
  then have "covers1 n (take m xss ! j)"
    using assms(2) j by (simp add: list_all_length)
  then show "n \<le> length (xss ! j)" using assms(2) by (simp add: covers1_def)
qed

lemma covers3_nth:
  assumes "covers3 l m n xsss" "i < l" "j < m"
  shows "i < length xsss" "j < length (xsss ! i)" "n \<le> length (xsss ! i ! j)"
proof -
  show i: "i < length xsss" using assms by (simp add: covers3_def)
  have "list_all (covers2 m n) (take l xsss)" using assms(1) by (simp add: covers3_def)
  then have "covers2 m n (take l xsss ! i)"
    using assms(2) i by (simp add: list_all_length)
  then have c: "covers2 m n (xsss ! i)" using assms(2) by simp
  show "j < length (xsss ! i)" "n \<le> length (xsss ! i ! j)"
    using covers2_nth [OF c assms(3)] by simp_all
qed

lemma r_deltas_nth:
  assumes "covers1 3 call_deltas" "covers3 4 250 25 (call_deltas ! 2)" "i < 4" "j < 250" "s < 25"
  shows "r_deltas K call_deltas ! 2 ! i ! j ! s = lot_round K (call_deltas ! 2 ! i ! j ! s)"
proof -
  have a: "2 < length call_deltas" using assms(1) by (simp add: covers1_def)
  have b: "i < length (call_deltas ! 2)" "j < length (call_deltas ! 2 ! i)"
    "25 \<le> length (call_deltas ! 2 ! i ! j)"
    using covers3_nth [OF assms(2,3,4)] by simp_all
  then have c: "s < length (call_deltas ! 2 ! i ! j)" using assms(5) by simp
  show ?thesis
    unfolding r_deltas_def using a b(1,2) c by simp
qed

lemma d_excess_return_day:
  assumes "i < 4" "j < 250" "1 \<le> t" "t < 25"
  shows "d_excess_return option_prices call_deltas assets rfr ! i ! j ! t =
      (option_prices ! i ! j ! t - option_prices ! i ! j ! (t - 1))
        - call_deltas ! i ! j ! (t - 1) * (assets ! j ! t - assets ! j ! (t - 1))
        - rfr / Fin 260 * (option_prices ! i ! j ! (t - 1)
             - call_deltas ! i ! j ! (t - 1) * assets ! j ! (t - 1))"
proof -
  from assms(3,4) obtain s where s: "t = Suc s" "s < 24" by (cases t) auto
  show ?thesis
    unfolding d_excess_return_row [OF assms(1,2)] s by (simp add: s)
qed


lemma rounded_day:
  assumes "covers1 3 call_deltas" "covers3 4 250 25 (call_deltas ! 2)"
    and "i < 4" "j < 250" "1 \<le> t" "t < 25"
    and "option_prices ! 2 ! i ! j ! t = Fin c" "option_prices ! 2 ! i ! j ! (t - 1) = Fin c1"
    and "call_deltas ! 2 ! i ! j ! (t - 1) = Fin h"
    and "assets ! j ! t = Fin p" "assets ! j ! (t - 1) = Fin p1"
    and "0 < K"
  shows "d_excess_return (option_prices ! 2) (r_deltas (Fin K) call_deltas ! 2) assets g_rfr
           ! i ! j ! t
     = Fin ((c - c1) - K * of_int (round_half_even (h / K)) * (p - p1)
            - 5 / 100 / 260 * (c1 - K * of_int (round_half_even (h / K)) * p1))"
proof -
  have s: "t - 1 < 25" using assms(6) by simp
  have r: "r_deltas (Fin K) call_deltas ! 2 ! i ! j ! (t - 1)
      = Fin (K * of_int (round_half_even (h / K)))"
    unfolding r_deltas_nth [OF assms(1,2,3,4) s] assms(9) using assms(12)
    by (rule lot_round_finite)
  show ?thesis
    unfolding d_excess_return_day [OF assms(3,4,5,6)] r assms(7,8,10,11) g_rfr_def
    by (simp add: Fin_minus)
qed

lemma unrounded_day:
  assumes "i < 4" "j < 250" "1 \<le> t" "t < 25"
    and "option_prices ! 2 ! i ! j ! t = Fin c" "option_prices ! 2 ! i ! j ! (t - 1) = Fin c1"
    and "call_deltas ! 2 ! i ! j ! (t - 1) = Fin h"
    and "assets ! j ! t = Fin p" "assets ! j ! (t - 1) = Fin p1"
  shows "d_excess_return (option_prices ! 2) (call_deltas ! 2) assets g_rfr ! i ! j ! t
     = Fin ((c - c1) - h * (p - p1) - 5 / 100 / 260 * (c1 - h * p1))"
  unfolding d_excess_return_day [OF assms(1,2,3,4)] assms(5-9) g_rfr_def
  by (simp add: Fin_minus)

lemma rounding_gap:
  assumes "0 < K"
  shows "\<bar>((c - c1) - K * of_int (round_half_even (h / K)) * (p - p1)
            - r * (c1 - K * of_int (round_half_even (h / K)) * p1))
          - ((c - c1) - h * (p - p1) - r * (c1 - h * p1))\<bar>
        \<le> K / 2 * \<bar>(p - p1) - r * p1\<bar>"
proof -
  let ?h = "K * of_int (round_half_even (h / K))"
  have "((c - c1) - ?h * (p - p1) - r * (c1 - ?h * p1))
          - ((c - c1) - h * (p - p1) - r * (c1 - h * p1))
      = (h - ?h) * ((p - p1) - r * p1)"
    by (simp add: algebra_simps)
  then have "\<bar>((c - c1) - ?h * (p - p1) - r * (c1 - ?h * p1))
          - ((c - c1) - h * (p - p1) - r * (c1 - h * p1))\<bar>
      = \<bar>h - ?h\<bar> * \<bar>(p - p1) - r * p1\<bar>"
    by (simp only: abs_mult)
  also have "\<dots> \<le> K / 2 * \<bar>(p - p1) - r * p1\<bar>"
    using lot_round_near [OF assms, of h] by (intro mult_right_mono) simp_all
  finally show ?thesis .
qed

text \<open>
  Claim C6, amended.  For every lot size \<open>K > 0\<close> and every finite delta \<open>d\<close>, the
  hedge ratio \<open>K * round (d / K)\<close> is an integer multiple of \<open>K\<close> within \<open>K / 2\<close> of
  \<open>d\<close>.  On every day \<open>t\<close> from 1 to 24 of a path with finite prices and deltas, the
  excess return computed from the rounded deltas differs from the one computed from the
  unrounded deltas by at most \<open>K / 2 * \<bar>(P[t] - P[t-1]) - r * P[t-1]\<bar>\<close>, so that it
  converges to the unrounded value as \<open>K\<close> tends to 0 from above.  (Without rounding the
  notebook passes \<open>call_deltas\<close> itself to \<open>excess_return\<close>.)
\<close>

theorem lot_rounding_series:
  assumes "covers1 3 call_deltas" "covers3 4 250 25 (call_deltas ! 2)"
    and "i < 4" "j < 250" "1 \<le> t" "t < 25"
    and "option_prices ! 2 ! i ! j ! t = Fin c" "option_prices ! 2 ! i ! j ! (t - 1) = Fin c1"
    and "call_deltas ! 2 ! i ! j ! (t - 1) = Fin h"
    and "assets ! j ! t = Fin p" "assets ! j ! (t - 1) = Fin p1"
  shows "(\<forall>K d. 0 < K \<longrightarrow>
            (\<exists>n::int. lot_round (Fin K) (Fin d) = Fin (K * of_int n)
                \<and> \<bar>d - K * of_int n\<bar> \<le> K / 2))
    \<and> (\<exists>e. d_excess_return (option_prices ! 2) (call_deltas ! 2) assets g_rfr ! i ! j ! t
              = Fin e
          \<and> (\<forall>K. 0 < K \<longrightarrow>
                (\<exists>eK. d_excess_return (option_prices ! 2) (r_deltas (Fin K) call_deltas ! 2)
                         assets g_rfr ! i ! j ! t = Fin eK
                    \<and> \<bar>eK - e\<bar> \<le> K / 2 * \<bar>(p - p1) - 5 / 100 / 260 * p1\<bar>)))
    \<and> ((\<lambda>K. fin_value (d_excess_return (option_prices ! 2)
                  (r_deltas (Fin K) call_deltas ! 2) assets g_rfr ! i ! j ! t))
          \<longlongrightarrow> fin_value (d_excess_return (option_prices ! 2) (call_deltas ! 2) assets g_rfr
                  ! i ! j ! t)) (at_right 0)"
proof -
  let ?e = "(c - c1) - h * (p - p1) - 5 / 100 / 260 * (c1 - h * p1)"
  let ?eK = "\<lambda>K. (c - c1) - K * of_int (round_half_even (h / K)) * (p - p1)
            - 5 / 100 / 260 * (c1 - K * of_int (round_half_even (h / K)) * p1)"
  let ?B = "\<bar>(p - p1) - 5 / 100 / 260 * p1\<bar>"
  have u: "d_excess_return (option_prices ! 2) (call_deltas ! 2) assets g_rfr ! i ! j ! t = Fin ?e"
    using assms(3-11) by (rule unrounded_day)
  have rK: "d_excess_return (option_prices ! 2) (r_deltas (Fin K) call_deltas ! 2) assets g_rfr
           ! i ! j ! t = Fin (?eK K)" if "0 < K" for K
    using assms that by (rule rounded_day)
  have gap: "\<bar>?eK K - ?e\<bar> \<le> K / 2 * ?B" if "0 < K" for K
    using that by (rule rounding_gap)
  have a: "\<forall>K d. 0 < K \<longrightarrow>
            (\<exists>n::int. lot_round (Fin K) (Fin d) = Fin (K * of_int n)
                \<and> \<bar>d - K * of_int n\<bar> \<le> K / 2)"
    using lot_round_finite lot_round_near by blast
  have b: "\<exists>e. d_excess_return (option_prices ! 2) (call_deltas ! 2) assets g_rfr ! i ! j ! t
              = Fin e
          \<and> (\<forall>K. 0 < K \<longrightarrow>
                (\<exists>eK. d_excess_return (option_prices ! 2) (r_deltas (Fin K) call_deltas ! 2)
                         assets g_rfr ! i ! j ! t = Fin eK
                    \<and> \<bar>eK - e\<bar> \<le> K / 2 * ?B))"
    using u rK gap by blast
  have ev: "\<forall>\<^sub>F K in at_right 0.
      norm (fin_value (d_excess_return (option_prices ! 2)
                  (r_deltas (Fin K) call_deltas ! 2) assets g_rfr ! i ! j ! t) - ?e)
        \<le> norm K * (?B / 2)"
    using eventually_at_right_less [of "0::real"]
  proof (rule eventually_mono)
    fix K :: real assume K: "0 < K"
    show "norm (fin_value (d_excess_return (option_prices ! 2)
                  (r_deltas (Fin K) call_deltas ! 2) assets g_rfr ! i ! j ! t) - ?e)
        \<le> norm K * (?B / 2)"
      unfolding rK [OF K] using gap [OF K] K by simp
  qed
  have id0: "((\<lambda>K::real. K) \<longlongrightarrow> 0) (at_right 0)" by (rule tendsto_ident_at)
  have "((\<lambda>K. fin_value (d_excess_return (option_prices ! 2)
                  (r_deltas (Fin K) call_deltas ! 2) assets g_rfr ! i ! j ! t) - ?e)
          \<longlongrightarrow> 0) (at_right 0)"
    using id0 ev by (rule tendsto_0_le)
  then have "((\<lambda>K. fin_value (d_excess_return (option_prices ! 2)
                  (r_deltas (Fin K) call_deltas ! 2) assets g_rfr ! i ! j ! t))
          \<longlongrightarrow> ?e) (at_right 0)"
    by (rule LIM_zero_cancel)
  then have c: "((\<lambda>K. fin_value (d_excess_return (option_prices ! 2)
                  (r_deltas (Fin K) call_deltas ! 2) assets g_rfr ! i ! j ! t))
          \<longlongrightarrow> fin_value (d_excess_return (option_prices ! 2) (call_deltas ! 2) assets g_rfr
                  ! i ! j ! t)) (at_right 0)"
    unfolding u by simp
  show ?thesis using a b c by blast
qed

text \<open>
  Claim C6 as stated fails at the lot size 0: the rounding expression divides by the lot
  size, and a delta of 1/2 becomes \<open>nan\<close> instead of staying 1/2.
\<close>

theorem lot_round_zero_is_nan: "lot_round (Fin 0) (Fin (1 / 2)) = NaN"
  by (simp add: lot_round_def)


theorem lot_rounding_series_witness:
  "covers1 3 (replicate 5 (replicate 4 (replicate 250 (replicate 25 (Fin (1 / 2))))))
   \<and> covers3 4 250 25 (replicate 5 (replicate 4 (replicate 250 (replicate 25 (Fin (1 / 2))))) ! 2)
   \<and> (0::nat) < 4 \<and> (0::nat) < 250 \<and> (1::nat) \<le> 1 \<and> (1::nat) < 25 \<and> (0::real) < 1 / 4
   \<and> (\<exists>n::int. lot_round (Fin (1 / 4)) (Fin (1 / 2)) = Fin (1 / 4 * of_int n)
         \<and> \<bar>1 / 2 - 1 / 4 * real_of_int n\<bar> \<le> 1 / 4 / 2)
   \<and> (\<exists>e eK. d_excess_return (replicate 5 (replicate 4 (replicate 250 (replicate 25 (Fin 2)))) ! 2)
                 (replicate 5 (replicate 4 (replicate 250 (replicate 25 (Fin (1 / 2))))) ! 2)
                 (replicate 250 (replicate 25 (Fin 100))) g_rfr ! 0 ! 0 ! 1 = Fin e
         \<and> d_excess_return (replicate 5 (replicate 4 (replicate 250 (replicate 25 (Fin 2)))) ! 2)
                 (r_deltas (Fin (1 / 4))
                    (replicate 5 (replicate 4 (replicate 250 (replicate 25 (Fin (1 / 2)))))) ! 2)
                 (replicate 250 (replicate 25 (Fin 100))) g_rfr ! 0 ! 0 ! 1 = Fin eK
         \<and> \<bar>eK - e\<bar> \<le> 1 / 4 / 2 * \<bar>(100 - 100) - 5 / 100 / 260 * 100\<bar>)"
proof -
  let ?cd = "replicate 5 (replicate 4 (replicate 250 (replicate 25 (Fin (1 / 2)))))"
  let ?op = "replicate 5 (replicate 4 (replicate 250 (replicate 25 (Fin 2))))"
  let ?as = "replicate 250 (replicate 25 (Fin 100))"
  have s1: "covers1 3 ?cd" by (rule covers1_replicate) simp
  have "covers3 4 250 25 (replicate 4 (replicate 250 (replicate 25 (Fin (1 / 2)))))"
    by (intro covers3_replicate covers2_replicate covers1_replicate) simp_all
  then have s2: "covers3 4 250 25 (?cd ! 2)" by simp
  have ix: "(0::nat) < 4" "(0::nat) < 250" "(1::nat) \<le> 1" "(1::nat) < 25" by simp_all
  have K: "(0::real) < 1 / 4" by simp
  have v: "?op ! 2 ! 0 ! 0 ! 1 = Fin 2" "?op ! 2 ! 0 ! 0 ! (1 - 1) = Fin 2"
    "?cd ! 2 ! 0 ! 0 ! (1 - 1) = Fin (1 / 2)"
    "?as ! 0 ! 1 = Fin 100" "?as ! 0 ! (1 - 1) = Fin 100"
    by simp_all
  note main = lot_rounding_series [OF s1 s2 ix v]
  note p1 = main [THEN conjunct1] and p2 = main [THEN conjunct2, THEN conjunct1]
  from p1 K have a: "\<exists>n::int. lot_round (Fin (1 / 4)) (Fin (1 / 2)) = Fin (1 / 4 * of_int n)
         \<and> \<bar>1 / 2 - 1 / 4 * real_of_int n\<bar> \<le> 1 / 4 / 2"
    by blast
  from p2 K have b: "\<exists>e eK. d_excess_return (?op ! 2) (?cd ! 2) ?as g_rfr ! 0 ! 0 ! 1 = Fin e
         \<and> d_excess_return (?op ! 2) (r_deltas (Fin (1 / 4)) ?cd ! 2) ?as g_rfr ! 0 ! 0 ! 1 = Fin eK
         \<and> \<bar>eK - e\<bar> \<le> 1 / 4 / 2 * \<bar>(100 - 100) - 5 / 100 / 260 * 100\<bar>"
    by blast
  show ?thesis
    by (intro conjI) (rule s1 s2 ix K a b)+
qed

subsection \<open>The normal distribution function and the vega of the call\<close>






lemma norm_cdf_zero: "norm_cdf 0 = 1 / 2"
proof -
  have "(\<lambda>n. norm_cdf_coeff n * 0 ^ n) = (\<lambda>n. 0)"
    by (rule ext) (simp add: norm_cdf_coeff_def power_0_left)
  then show ?thesis by (simp add: norm_cdf_def)
qed







end
